theory Spec2Isabelle
  imports Complex_Main
begin

section \<open>A cache-hierarchy simulator: the orchestration file \<^verbatim>\<open>cache_simulator.py\<close>\<close>

text \<open>
  The development embeds the functions of \<^verbatim>\<open>cache_simulator.py\<close> that build the
  memory hierarchy, run a trace through it and compute the average memory access time
  (AMAT) of every level.

  Conventions of the embedding:
  \<^item> an exception is a value of type \<open>error\<close>; a function that can raise returns a sum
    whose left side is the exception;
  \<^item> a Python dictionary is a map \<open>'k \<rightharpoonup> 'v\<close>;
  \<^item> the numbers of the configuration (hit times, sizes, and the booleans, which are
    integers in Python) and the numbers computed from them are real numbers: the
    rounding of Python's floats and the overflow of a finite number are not part of
    the model. Where an infinity or NaN decides a property, \<^verbatim>\<open>compute_amat\<close> is
    embedded a second time, on the type \<open>number\<close>, which has them;
  \<^item> calls of the logger are not modelled; what \<^verbatim>\<open>analyze_results\<close> logs is returned
    as a value instead.
\<close>

subsection \<open>Exceptions\<close>

datatype error =
    KeyError string
  | ValueError
  | IndexError
  | NameError string
  | ZeroDivisionError
  | Raised string
  | CacheError string

text \<open>
  \<open>Raised n\<close> is the exception that \<^verbatim>\<open>raise n\<close> raises when the name \<open>n\<close> is bound;
  \<open>CacheError\<close> stands for whatever a method of the module \<^verbatim>\<open>cache\<close> may raise.
\<close>

text \<open>Subscription \<^verbatim>\<open>d[k]\<close> of a dictionary with string keys.\<close>

definition getitem :: "(string \<rightharpoonup> 'v) \<Rightarrow> string \<Rightarrow> error + 'v" where
  "getitem d k = (case d k of None \<Rightarrow> Inl (KeyError k) | Some v \<Rightarrow> Inr v)"

text \<open>True division \<^verbatim>\<open>a / b\<close> of two numbers.\<close>

definition py_div :: "real \<Rightarrow> real \<Rightarrow> error + real" where
  "py_div a b = (if b = 0 then Inl ZeroDivisionError else Inr (a / b))"

subsection \<open>Cache levels and access outcomes\<close>

text \<open>
  Modelled from the spec: the class \<^verbatim>\<open>cache.Cache\<close> is imported from a module that is
  not among the sources. An object of the class is taken to hold the arguments of its
  constructor, in the order in which \<^verbatim>\<open>build_cache\<close> passes them, under the attribute
  names that the spec's data model and the simulator use (\<^verbatim>\<open>name\<close>, \<^verbatim>\<open>hit_time\<close>,
  \<^verbatim>\<open>next_level\<close>, \<^verbatim>\<open>associativity\<close>, ...). The object is truthy, as every Python object
  without \<^verbatim>\<open>__bool__\<close> and \<^verbatim>\<open>__len__\<close> is, so \<^verbatim>\<open>not level.next_level\<close> holds exactly
  when \<^verbatim>\<open>next_level\<close> is \<^verbatim>\<open>None\<close>.

  The type parameter is the type of the numbers that the object holds: \<open>real\<close> where
  all numbers of a run are finite, and \<open>number\<close> (below) where a number may also be an
  infinity or NaN.
\<close>

datatype 'n cache_of = Cache
  (name: string)
  (word_size: 'n)
  (block_size: 'n)
  (n_blocks: 'n)
  (associativity: 'n)
  (hit_time: 'n)
  (write_time: 'n)
  (write_back: 'n)
  (next_level: "'n cache_of option")

type_synonym cache = "real cache_of"

text \<open>
  The record that \<^verbatim>\<open>read\<close> and \<^verbatim>\<open>write\<close> return for one access: \<^verbatim>\<open>hit_list\<close> maps the
  name of every level that was consulted to whether it hit, \<^verbatim>\<open>time\<close> is the number of
  cycles charged.
\<close>

record response =
  hit_list :: "string \<rightharpoonup> bool"
  time :: real

type_synonym results = "string \<rightharpoonup> real"

subsection \<open>\<^verbatim>\<open>compute_amat\<close>\<close>

text \<open>
  The loop of lines 157 to 163: \<^verbatim>\<open>n_access\<close> counts the responses whose \<^verbatim>\<open>hit_list\<close> has
  the key \<^verbatim>\<open>level.name\<close>, \<^verbatim>\<open>n_miss\<close> those among them whose value equals \<^verbatim>\<open>False\<close>.
  The function returns the pair \<open>(n_miss, n_access)\<close>.
\<close>

fun count_accesses :: "string \<Rightarrow> response list \<Rightarrow> nat \<Rightarrow> nat \<Rightarrow> nat \<times> nat" where
  "count_accesses nm [] n_miss n_access = (n_miss, n_access)"
| "count_accesses nm (r # responses) n_miss n_access =
     (case hit_list r nm of
        None \<Rightarrow> count_accesses nm responses n_miss n_access
      | Some h \<Rightarrow>
          count_accesses nm responses (if h = False then n_miss + 1 else n_miss) (n_access + 1))"

text \<open>
  \<^verbatim>\<open>compute_amat(level, responses, logger, results={})\<close>. Every call in the program,
  the one of \<^verbatim>\<open>analyze_results\<close> and the two recursive ones, omits the fourth argument,
  so \<^verbatim>\<open>results\<close> is always the one dictionary that Python created when the \<^verbatim>\<open>def\<close>
  statement ran. That dictionary is the state of the model: the function takes its
  contents before the call and returns its contents after the call, which is also the
  mapping the call returns (the same object).

  In the branch \<^verbatim>\<open>n_access > 0\<close> the quotient is computed before the recursive call, as
  in the source.
\<close>

fun compute_amat :: "cache \<Rightarrow> response list \<Rightarrow> results \<Rightarrow> error + results" where
  "compute_amat (Cache nm ws bs nb assoc ht wt wb None) responses results =
     Inr (results(nm \<mapsto> ht))"
| "compute_amat (Cache nm ws bs nb assoc ht wt wb (Some nxt)) responses results =
     (case count_accesses nm responses 0 0 of
        (n_miss, n_access) \<Rightarrow>
          if n_access > 0 then
            (case py_div (real n_miss) (real n_access) of
               Inl e \<Rightarrow> Inl e
             | Inr miss_rate \<Rightarrow>
                 (case compute_amat nxt responses results of
                    Inl e \<Rightarrow> Inl e
                  | Inr results' \<Rightarrow>
                      (case getitem results' (name nxt) of
                         Inl e \<Rightarrow> Inl e
                       | Inr a \<Rightarrow> Inr (results'(nm \<mapsto> ht + miss_rate * a)))))
          else
            (case compute_amat nxt responses results of
               Inl e \<Rightarrow> Inl e
             | Inr results' \<Rightarrow>
                 (case getitem results' (name nxt) of
                    Inl e \<Rightarrow> Inl e
                  | Inr a \<Rightarrow> Inr (results'(nm \<mapsto> 0 * a)))))"

text \<open>
  The counts in the words of the spec: the number of outcomes whose \<^verbatim>\<open>hitList\<close> contains
  the level's name, and the number of those whose recorded value is false.
\<close>

definition accessCount :: "string \<Rightarrow> response list \<Rightarrow> nat" where
  "accessCount nm outcomes = length (filter (\<lambda>r. hit_list r nm \<noteq> None) outcomes)"

definition missCount :: "string \<Rightarrow> response list \<Rightarrow> nat" where
  "missCount nm outcomes = length (filter (\<lambda>r. hit_list r nm = Some False) outcomes)"

subsection \<open>\<^verbatim>\<open>compute_amat\<close> on numbers with infinities and NaN\<close>

text \<open>
  A hit time of the configuration may be a float that is not finite: YAML writes them
  \<^verbatim>\<open>.inf\<close>, \<^verbatim>\<open>-.inf\<close> and \<^verbatim>\<open>.nan\<close>. A \<open>number\<close> is a finite number (still a real: rounding is
  not modelled), one of the two infinities, or NaN.
\<close>

datatype number = Finite real | PosInf | NegInf | NaN

text \<open>
  Addition and multiplication of floats on these values: NaN absorbs, the sum of the
  two infinities is NaN, and so is the product of zero and an infinity.
\<close>

fun num_add :: "number \<Rightarrow> number \<Rightarrow> number" where
  "num_add NaN y = NaN"
| "num_add x NaN = NaN"
| "num_add (Finite a) (Finite b) = Finite (a + b)"
| "num_add PosInf NegInf = NaN"
| "num_add NegInf PosInf = NaN"
| "num_add PosInf y = PosInf"
| "num_add x PosInf = PosInf"
| "num_add NegInf y = NegInf"
| "num_add x NegInf = NegInf"

fun num_mul :: "number \<Rightarrow> number \<Rightarrow> number" where
  "num_mul NaN y = NaN"
| "num_mul x NaN = NaN"
| "num_mul (Finite a) (Finite b) = Finite (a * b)"
| "num_mul (Finite a) PosInf = (if a = 0 then NaN else if 0 < a then PosInf else NegInf)"
| "num_mul (Finite a) NegInf = (if a = 0 then NaN else if 0 < a then NegInf else PosInf)"
| "num_mul PosInf (Finite b) = (if b = 0 then NaN else if 0 < b then PosInf else NegInf)"
| "num_mul NegInf (Finite b) = (if b = 0 then NaN else if 0 < b then NegInf else PosInf)"
| "num_mul PosInf PosInf = PosInf"
| "num_mul PosInf NegInf = NegInf"
| "num_mul NegInf PosInf = NegInf"
| "num_mul NegInf NegInf = PosInf"

fun is_finite :: "number \<Rightarrow> bool" where
  "is_finite (Finite a) = True"
| "is_finite x = False"

text \<open>
  \<^verbatim>\<open>compute_amat\<close> once more, line by line as above, on levels whose hit times are
  numbers of this kind. The counters are integers and \<^verbatim>\<open>n_access\<close> is positive where the
  quotient is taken, so \<^verbatim>\<open>miss_rate\<close> is finite; the sum, the two products and the
  literal \<^verbatim>\<open>0\<close> are the ones of lines 169 and 171.
\<close>

fun compute_amat_float ::
  "number cache_of \<Rightarrow> response list \<Rightarrow> (string \<rightharpoonup> number) \<Rightarrow> error + (string \<rightharpoonup> number)" where
  "compute_amat_float (Cache nm ws bs nb assoc ht wt wb None) responses results =
     Inr (results(nm \<mapsto> ht))"
| "compute_amat_float (Cache nm ws bs nb assoc ht wt wb (Some nxt)) responses results =
     (case count_accesses nm responses 0 0 of
        (n_miss, n_access) \<Rightarrow>
          if n_access > 0 then
            (case py_div (real n_miss) (real n_access) of
               Inl e \<Rightarrow> Inl e
             | Inr miss_rate \<Rightarrow>
                 (case compute_amat_float nxt responses results of
                    Inl e \<Rightarrow> Inl e
                  | Inr results' \<Rightarrow>
                      (case getitem results' (name nxt) of
                         Inl e \<Rightarrow> Inl e
                       | Inr a \<Rightarrow>
                           Inr (results'(nm \<mapsto> num_add ht (num_mul (Finite miss_rate) a))))))
          else
            (case compute_amat_float nxt responses results of
               Inl e \<Rightarrow> Inl e
             | Inr results' \<Rightarrow>
                 (case getitem results' (name nxt) of
                    Inl e \<Rightarrow> Inl e
                  | Inr a \<Rightarrow> Inr (results'(nm \<mapsto> num_mul (Finite 0) a)))))"

text \<open>A dictionary of finite numbers, read as a dictionary of such numbers.\<close>

definition finite_results :: "results \<Rightarrow> (string \<rightharpoonup> number)" where
  "finite_results r = (\<lambda>k. map_option Finite (r k))"

subsection \<open>\<^verbatim>\<open>analyze_results\<close>\<close>

text \<open>
  What \<^verbatim>\<open>analyze_results\<close> logs: the number of instructions, the total of the cycles and
  the mapping that \<^verbatim>\<open>compute_amat\<close> returned.
\<close>

record report =
  n_instructions :: nat
  total_time :: real
  amat :: results

text \<open>
  \<^verbatim>\<open>analyze_results(hierarchy, responses, logger)\<close>. The third argument of the model
  is the content of \<^verbatim>\<open>compute_amat\<close>'s default dictionary before the call; the result
  holds its content after the call.
\<close>

definition analyze_results ::
  "(string \<rightharpoonup> cache) \<Rightarrow> response list \<Rightarrow> results \<Rightarrow> error + (report \<times> results)" where
  "analyze_results hierarchy responses results =
     (let n = length responses;
          t = foldl (\<lambda>t r. t + time r) 0 responses
      in case getitem hierarchy ''cache_1'' of
           Inl e \<Rightarrow> Inl e
         | Inr l1 \<Rightarrow>
             (case compute_amat l1 responses results of
                Inl e \<Rightarrow> Inl e
              | Inr a \<Rightarrow> Inr (\<lparr>n_instructions = n, total_time = t, amat = a\<rparr>, a)))"

subsection \<open>Strings\<close>

text \<open>
  \<^verbatim>\<open>str.split()\<close> with no argument splits at runs of whitespace and drops empty
  strings. The whitespace characters of Python 3 below code point 256 are the ones
  listed; a string of the model is a list of such characters.
\<close>

definition is_space :: "char \<Rightarrow> bool" where
  "is_space c = (of_char c \<in> set [9, 10, 11, 12, 13, 28, 29, 30, 31, 32, 133, 160 :: nat])"

fun split_from :: "string \<Rightarrow> string \<Rightarrow> string list" where
  "split_from word [] = (if word = [] then [] else [word])"
| "split_from word (c # cs) =
     (if is_space c then (if word = [] then split_from [] cs else word # split_from [] cs)
      else split_from (word @ [c]) cs)"

definition str_split :: "string \<Rightarrow> string list" where
  "str_split s = split_from [] s"

text \<open>\<^verbatim>\<open>s.startswith(prefix)\<close>.\<close>

definition startswith :: "string \<Rightarrow> string \<Rightarrow> bool" where
  "startswith s prefix = (take (length prefix) s = prefix)"

subsection \<open>Name resolution for \<^verbatim>\<open>raise InvalidOpError\<close>\<close>

text \<open>
  \<^verbatim>\<open>simulate\<close> never assigns the name \<^verbatim>\<open>InvalidOpError\<close>, so Python looks it up among
  the globals of the module and then among the builtins. The globals are the names
  that the module's \<^verbatim>\<open>import\<close> and \<^verbatim>\<open>def\<close> statements bind, besides the attributes every
  module has.
\<close>

definition module_globals :: "string list" where
  "module_globals =
     [''__name__'', ''__doc__'', ''__package__'', ''__loader__'', ''__spec__'',
      ''__file__'', ''__cached__'', ''__builtins__'', ''__annotations__'',
      ''yaml'', ''cache'', ''argparse'', ''logging'', ''pprint'', ''UnixTable'',
      ''main'', ''print_cache'', ''simulate'', ''analyze_results'', ''compute_amat'',
      ''build_hierarchy'', ''build_cache'']"

definition builtin_names :: "string list" where
  "builtin_names =
     [''ArithmeticError'', ''AssertionError'', ''AttributeError'', ''BaseException'',
      ''BaseExceptionGroup'', ''BlockingIOError'', ''BrokenPipeError'', ''BufferError'',
      ''BytesWarning'', ''ChildProcessError'', ''ConnectionAbortedError'',
      ''ConnectionError'', ''ConnectionRefusedError'', ''ConnectionResetError'',
      ''DeprecationWarning'', ''EOFError'', ''Ellipsis'', ''EncodingWarning'',
      ''EnvironmentError'', ''Exception'', ''ExceptionGroup'', ''False'',
      ''FileExistsError'', ''FileNotFoundError'', ''FloatingPointError'',
      ''FutureWarning'', ''GeneratorExit'', ''IOError'', ''ImportError'',
      ''ImportWarning'', ''IndentationError'', ''IndexError'', ''InterruptedError'',
      ''IsADirectoryError'', ''KeyError'', ''KeyboardInterrupt'', ''LookupError'',
      ''MemoryError'', ''ModuleNotFoundError'', ''NameError'', ''None'',
      ''NotADirectoryError'', ''NotImplemented'', ''NotImplementedError'', ''OSError'',
      ''OverflowError'', ''PendingDeprecationWarning'', ''PermissionError'',
      ''ProcessLookupError'', ''PythonFinalizationError'', ''RecursionError'',
      ''ReferenceError'', ''ResourceWarning'', ''RuntimeError'', ''RuntimeWarning'',
      ''StandardError'', ''StopAsyncIteration'', ''StopIteration'', ''SyntaxError'',
      ''SyntaxWarning'', ''SystemError'', ''SystemExit'', ''TabError'', ''TimeoutError'',
      ''True'', ''TypeError'', ''UnboundLocalError'', ''UnicodeDecodeError'',
      ''UnicodeEncodeError'', ''UnicodeError'', ''UnicodeTranslateError'',
      ''UnicodeWarning'', ''UserWarning'', ''ValueError'', ''Warning'',
      ''WindowsError'', ''ZeroDivisionError'',
      ''__build_class__'', ''__debug__'', ''__doc__'', ''__import__'', ''__loader__'',
      ''__name__'', ''__package__'', ''__spec__'',
      ''abs'', ''aiter'', ''all'', ''anext'', ''any'', ''apply'', ''ascii'', ''basestring'',
      ''bin'', ''bool'', ''breakpoint'', ''buffer'', ''bytearray'', ''bytes'', ''callable'',
      ''chr'', ''classmethod'', ''cmp'', ''coerce'', ''compile'', ''complex'', ''copyright'',
      ''credits'', ''delattr'', ''dict'', ''dir'', ''divmod'', ''enumerate'', ''eval'',
      ''exec'', ''execfile'', ''exit'', ''file'', ''filter'', ''float'', ''format'',
      ''frozenset'', ''getattr'', ''globals'', ''hasattr'', ''hash'', ''help'', ''hex'',
      ''id'', ''input'', ''int'', ''intern'', ''isinstance'', ''issubclass'', ''iter'',
      ''len'', ''license'', ''list'', ''locals'', ''long'', ''map'', ''max'',
      ''memoryview'', ''min'', ''next'', ''object'', ''oct'', ''open'', ''ord'', ''pow'',
      ''print'', ''property'', ''quit'', ''range'', ''raw_input'', ''reduce'', ''reload'',
      ''repr'', ''reversed'', ''round'', ''set'', ''setattr'', ''slice'', ''sorted'',
      ''staticmethod'', ''str'', ''sum'', ''super'', ''tuple'', ''type'', ''unichr'',
      ''unicode'', ''vars'', ''xrange'', ''zip'']"

text \<open>\<^verbatim>\<open>raise n\<close> for a name \<open>n\<close> that the function does not bind itself.\<close>

definition raise_name :: "string \<Rightarrow> error" where
  "raise_name n =
     (if n \<in> set module_globals \<or> n \<in> set builtin_names then Raised n else NameError n)"

subsection \<open>\<^verbatim>\<open>simulate\<close>\<close>

text \<open>
  The methods \<^verbatim>\<open>read(address, current_step)\<close> and \<^verbatim>\<open>write(address, True, current_step)\<close>
  of \<^verbatim>\<open>cache_1\<close> belong to the module \<^verbatim>\<open>cache\<close>, which is not among the sources. They
  are parameters of the model: each takes the contents of the hierarchy (a state of any
  type \<open>'s\<close>) and either raises or returns a response, with the new contents in both
  cases.
\<close>

type_synonym 's read_method =
  "'s \<Rightarrow> string \<Rightarrow> nat \<Rightarrow> (error \<times> 's) + (response \<times> 's)"

type_synonym 's write_method =
  "'s \<Rightarrow> string \<Rightarrow> bool \<Rightarrow> nat \<Rightarrow> (error \<times> 's) + (response \<times> 's)"

datatype call = ReadCall string nat | WriteCall string bool nat

fun call_step :: "call \<Rightarrow> nat" where
  "call_step (ReadCall address current_step) = current_step"
| "call_step (WriteCall address flag current_step) = current_step"

text \<open>
  The state of a run: the contents of the hierarchy, the list \<^verbatim>\<open>responses\<close> of
  \<^verbatim>\<open>simulate\<close>, the calls issued on \<^verbatim>\<open>cache_1\<close> so far, the default dictionary of
  \<^verbatim>\<open>compute_amat\<close>, and what \<^verbatim>\<open>analyze_results\<close> reported, if it ran.
\<close>

record 's machine =
  store :: 's
  responses :: "response list"
  calls :: "call list"
  amat_results :: results
  reported :: "report option"

text \<open>The body of the loop of \<^verbatim>\<open>simulate\<close>, lines 117 to 132.\<close>

definition simulate_step ::
  "'s read_method \<Rightarrow> 's write_method \<Rightarrow> string list \<Rightarrow> nat \<Rightarrow> 's machine
     \<Rightarrow> (error \<times> 's machine) + 's machine" where
  "simulate_step rd wr trace current_step m =
     (if current_step < length trace then
        (case str_split (trace ! current_step) of
           [address, op] \<Rightarrow>
             if op = ''R'' then
               (case rd (store m) address current_step of
                  Inl (e, s) \<Rightarrow>
                    Inl (e, m\<lparr>store := s,
                              calls := calls m @ [ReadCall address current_step]\<rparr>)
                | Inr (r, s) \<Rightarrow>
                    Inr (m\<lparr>store := s,
                           calls := calls m @ [ReadCall address current_step],
                           responses := responses m @ [r]\<rparr>))
             else if op = ''W'' then
               (case wr (store m) address True current_step of
                  Inl (e, s) \<Rightarrow>
                    Inl (e, m\<lparr>store := s,
                              calls := calls m @ [WriteCall address True current_step]\<rparr>)
                | Inr (r, s) \<Rightarrow>
                    Inr (m\<lparr>store := s,
                           calls := calls m @ [WriteCall address True current_step],
                           responses := responses m @ [r]\<rparr>))
             else Inl (raise_name ''InvalidOpError'', m)
         | _ \<Rightarrow> Inl (ValueError, m))
      else Inl (IndexError, m))"

text \<open>The loop \<^verbatim>\<open>for current_step in range(len(trace))\<close>, over the steps that remain.\<close>

fun simulate_loop ::
  "'s read_method \<Rightarrow> 's write_method \<Rightarrow> string list \<Rightarrow> nat list \<Rightarrow> 's machine
     \<Rightarrow> (error \<times> 's machine) + 's machine" where
  "simulate_loop rd wr trace [] m = Inr m"
| "simulate_loop rd wr trace (current_step # steps) m =
     (case simulate_step rd wr trace current_step m of
        Inl x \<Rightarrow> Inl x
      | Inr m' \<Rightarrow> simulate_loop rd wr trace steps m')"

text \<open>
  The state in which the loop starts: \<^verbatim>\<open>responses = []\<close>, no call issued, nothing
  reported.
\<close>

definition start :: "'s \<Rightarrow> results \<Rightarrow> 's machine" where
  "start s results =
     \<lparr>store = s, responses = [], calls = [], amat_results = results, reported = None\<rparr>"

text \<open>
  \<^verbatim>\<open>simulate(hierarchy, trace, logger)\<close>, started with the contents \<open>s\<close> of the hierarchy
  and the contents \<open>results\<close> of \<^verbatim>\<open>compute_amat\<close>'s default dictionary. The left side of
  the result is an exception that left \<^verbatim>\<open>simulate\<close>, with the state at that moment.
\<close>

definition simulate ::
  "(string \<rightharpoonup> cache) \<Rightarrow> string list \<Rightarrow> 's read_method \<Rightarrow> 's write_method \<Rightarrow> 's
     \<Rightarrow> results \<Rightarrow> (error \<times> 's machine) + 's machine" where
  "simulate hierarchy trace rd wr s results =
     (let m0 = start s results
      in case getitem hierarchy ''cache_1'' of
           Inl e \<Rightarrow> Inl (e, m0)
         | Inr l1 \<Rightarrow>
             (case simulate_loop rd wr trace [0..<length trace] m0 of
                Inl x \<Rightarrow> Inl x
              | Inr m \<Rightarrow>
                  (case analyze_results hierarchy (responses m) (amat_results m) of
                     Inl e \<Rightarrow> Inl (e, m)
                   | Inr (rep, results') \<Rightarrow>
                       Inr (m\<lparr>amat_results := results', reported := Some rep\<rparr>))))"

text \<open>
  Lines 46 to 50 of \<^verbatim>\<open>main\<close>: the lines of the trace file that start with \<^verbatim>\<open>#\<close> are
  dropped, and the rest is simulated.
\<close>

definition main_trace :: "string list \<Rightarrow> string list" where
  "main_trace trace = [item \<leftarrow> trace. \<not> startswith item ''#'']"

definition main_simulate ::
  "(string \<rightharpoonup> cache) \<Rightarrow> string list \<Rightarrow> 's read_method \<Rightarrow> 's write_method \<Rightarrow> 's
     \<Rightarrow> results \<Rightarrow> (error \<times> 's machine) + 's machine" where
  "main_simulate hierarchy trace rd wr s results =
     simulate hierarchy (main_trace trace) rd wr s results"

text \<open>
  Vocabulary for the properties of \<^verbatim>\<open>simulate\<close>: a well-formed instruction is a line
  of two words whose second word is \<^verbatim>\<open>R\<close> or \<^verbatim>\<open>W\<close>; \<open>call_of\<close> is the call that such a
  line stands for at a given step, and \<open>perform\<close> carries a call out.
\<close>

definition well_formed :: "string \<Rightarrow> bool" where
  "well_formed line =
     (case str_split line of [address, op] \<Rightarrow> op = ''R'' \<or> op = ''W'' | _ \<Rightarrow> False)"

definition call_of :: "string \<Rightarrow> nat \<Rightarrow> call" where
  "call_of line current_step =
     (case str_split line of
        [address, op] \<Rightarrow>
          if op = ''R'' then ReadCall address current_step
          else WriteCall address True current_step
      | _ \<Rightarrow> ReadCall [] current_step)"

fun perform ::
  "'s read_method \<Rightarrow> 's write_method \<Rightarrow> call \<Rightarrow> 's \<Rightarrow> (error \<times> 's) + (response \<times> 's)" where
  "perform rd wr (ReadCall address current_step) s = rd s address current_step"
| "perform rd wr (WriteCall address flag current_step) s = wr s address flag current_step"

subsection \<open>\<^verbatim>\<open>build_hierarchy\<close> and \<^verbatim>\<open>build_cache\<close>\<close>

text \<open>
  The configuration is the dictionary of dictionaries that the YAML loader returns; its
  scalars are numbers (a boolean is the number 0 or 1).
\<close>

type_synonym config = "string \<rightharpoonup> (string \<rightharpoonup> real)"

definition err_bind :: "error + 'a \<Rightarrow> ('a \<Rightarrow> error + 'b) \<Rightarrow> error + 'b" where
  "err_bind x f = (case x of Inl e \<Rightarrow> Inl e | Inr v \<Rightarrow> f v)"

text \<open>\<^verbatim>\<open>configs[section][key]\<close>.\<close>

definition config_item :: "config \<Rightarrow> string \<Rightarrow> string \<Rightarrow> error + real" where
  "config_item configs section k = err_bind (getitem configs section) (\<lambda>d. getitem d k)"

text \<open>
  \<^verbatim>\<open>build_cache(configs, name, next_level_cache, logger)\<close>: the arguments of the
  constructor are evaluated from left to right; \<^verbatim>\<open>hit_time\<close> is passed twice.
\<close>

definition build_cache :: "config \<Rightarrow> string \<Rightarrow> cache option \<Rightarrow> error + cache" where
  "build_cache configs nm next_level_cache =
     err_bind (config_item configs ''architecture'' ''word_size'') (\<lambda>ws.
     err_bind (config_item configs ''architecture'' ''block_size'') (\<lambda>bs.
     err_bind (if nm \<noteq> ''mem'' then config_item configs nm ''blocks'' else Inr (- 1)) (\<lambda>nb.
     err_bind (if nm \<noteq> ''mem'' then config_item configs nm ''associativity'' else Inr (- 1))
       (\<lambda>assoc.
     err_bind (config_item configs nm ''hit_time'') (\<lambda>ht.
     err_bind (config_item configs nm ''hit_time'') (\<lambda>wt.
     err_bind (config_item configs ''architecture'' ''write_back'') (\<lambda>wb.
     Inr (Cache nm ws bs nb assoc ht wt wb next_level_cache))))))))"

text \<open>
  \<^verbatim>\<open>build_hierarchy(configs, logger)\<close>: each \<^verbatim>\<open>if\<close> block yields the new values of
  \<^verbatim>\<open>prev_level\<close> and \<^verbatim>\<open>hierarchy\<close>.
\<close>

definition build_hierarchy :: "config \<Rightarrow> error + (string \<rightharpoonup> cache)" where
  "build_hierarchy configs =
     err_bind (build_cache configs ''mem'' None) (\<lambda>main_memory.
     err_bind
       (if configs ''cache_4'' \<noteq> None then
          err_bind (build_cache configs ''cache_4'' (Some main_memory)) (\<lambda>cache_4.
          Inr (cache_4, [''mem'' \<mapsto> main_memory, ''cache_4'' \<mapsto> cache_4]))
        else Inr (main_memory, [''mem'' \<mapsto> main_memory]))
       (\<lambda>(prev_level, hierarchy).
     err_bind
       (if configs ''cache_3'' \<noteq> None then
          err_bind (build_cache configs ''cache_3'' (Some prev_level)) (\<lambda>cache_3.
          Inr (cache_3, hierarchy(''cache_3'' \<mapsto> cache_3)))
        else Inr (prev_level, hierarchy))
       (\<lambda>(prev_level, hierarchy).
     err_bind
       (if configs ''cache_2'' \<noteq> None then
          err_bind (build_cache configs ''cache_2'' (Some prev_level)) (\<lambda>cache_2.
          Inr (cache_2, hierarchy(''cache_2'' \<mapsto> cache_2)))
        else Inr (prev_level, hierarchy))
       (\<lambda>(prev_level, hierarchy).
     err_bind (build_cache configs ''cache_1'' (Some prev_level)) (\<lambda>cache_1.
     Inr (hierarchy(''cache_1'' \<mapsto> cache_1)))))))"

text \<open>The levels from a level down to the one without a next level.\<close>

fun chain :: "cache \<Rightarrow> cache list" where
  "chain (Cache nm ws bs nb assoc ht wt wb None) = [Cache nm ws bs nb assoc ht wt wb None]"
| "chain (Cache nm ws bs nb assoc ht wt wb (Some nxt)) =
     Cache nm ws bs nb assoc ht wt wb (Some nxt) # chain nxt"

text \<open>
  A configuration as the spec's interface section describes it: \<^verbatim>\<open>architecture\<close> gives
  \<^verbatim>\<open>word_size\<close>, \<^verbatim>\<open>block_size\<close> and \<^verbatim>\<open>write_back\<close>; \<^verbatim>\<open>mem\<close> gives \<^verbatim>\<open>hit_time\<close>; \<^verbatim>\<open>cache_1\<close>
  is present; and every cache level that is present gives \<^verbatim>\<open>blocks\<close>, \<^verbatim>\<open>associativity\<close>
  and \<^verbatim>\<open>hit_time\<close>.
\<close>

definition level_entry :: "(string \<rightharpoonup> real) option \<Rightarrow> bool" where
  "level_entry entry =
     (case entry of
        None \<Rightarrow> True
      | Some d \<Rightarrow> d ''blocks'' \<noteq> None \<and> d ''associativity'' \<noteq> None \<and> d ''hit_time'' \<noteq> None)"

definition configuration :: "config \<Rightarrow> bool" where
  "configuration configs =
     ((case configs ''architecture'' of
         None \<Rightarrow> False
       | Some a \<Rightarrow> a ''word_size'' \<noteq> None \<and> a ''block_size'' \<noteq> None \<and> a ''write_back'' \<noteq> None)
      \<and> (case configs ''mem'' of None \<Rightarrow> False | Some d \<Rightarrow> d ''hit_time'' \<noteq> None)
      \<and> configs ''cache_1'' \<noteq> None
      \<and> level_entry (configs ''cache_1'') \<and> level_entry (configs ''cache_2'')
      \<and> level_entry (configs ''cache_3'') \<and> level_entry (configs ''cache_4''))"

subsection \<open>The address decoder\<close>

text \<open>
  The decomposition of an address belongs to the module \<^verbatim>\<open>cache\<close>, which is not among
  the sources; the three functions follow the contract of the spec's section 4.1, with
  integer division (rounding down, as Python's \<^verbatim>\<open>//\<close> does).
\<close>

text \<open>
  Modelled from the spec: the address decoder of the absent module \<^verbatim>\<open>cache\<close>;
  \<open>blockOffset = address mod blockSize\<close>.
\<close>

definition blockOffset :: "int \<Rightarrow> int \<Rightarrow> int" where
  "blockOffset address blockSize = address mod blockSize"

text \<open>
  Modelled from the spec: the address decoder of the absent module \<^verbatim>\<open>cache\<close>;
  \<open>setIndex = (address / blockSize) mod numSets\<close>.
\<close>

definition setIndex :: "int \<Rightarrow> int \<Rightarrow> int \<Rightarrow> int" where
  "setIndex address blockSize numSets = (address div blockSize) mod numSets"

text \<open>
  Modelled from the spec: the address decoder of the absent module \<^verbatim>\<open>cache\<close>;
  \<open>tag = address / blockSize / numSets\<close>.
\<close>

definition tag :: "int \<Rightarrow> int \<Rightarrow> int \<Rightarrow> int" where
  "tag address blockSize numSets = address div blockSize div numSets"

subsection \<open>Example inputs\<close>

text \<open>
  Two hierarchies, \<^verbatim>\<open>cache_1\<close> over \<^verbatim>\<open>mem\<close> and \<^verbatim>\<open>cache_1\<close> over \<^verbatim>\<open>cache_2\<close> over \<^verbatim>\<open>mem\<close>,
  and the outcomes of an access that misses in \<^verbatim>\<open>cache_1\<close> and of one that hits there.
\<close>

definition example_mem :: cache where
  "example_mem = Cache ''mem'' 4 4 (- 1) (- 1) 100 100 1 None"

definition example_l1 :: cache where
  "example_l1 = Cache ''cache_1'' 4 4 4 1 1 1 1 (Some example_mem)"

definition example_cache_2 :: cache where
  "example_cache_2 = Cache ''cache_2'' 4 4 8 2 10 10 1 (Some example_mem)"

definition example_cache_1 :: cache where
  "example_cache_1 = Cache ''cache_1'' 4 4 4 1 1 1 1 (Some example_cache_2)"

definition example_miss :: response where
  "example_miss = \<lparr>hit_list = [''cache_1'' \<mapsto> False, ''mem'' \<mapsto> True], time = 101\<rparr>"

definition example_hit :: response where
  "example_hit = \<lparr>hit_list = [''cache_1'' \<mapsto> True], time = 1\<rparr>"

text \<open>
  A main memory whose hit time is the float infinity (\<^verbatim>\<open>hit_time: .inf\<close> in the
  configuration), a \<^verbatim>\<open>cache_2\<close> over it, and the same two levels with the finite hit
  time 100.
\<close>

definition example_inf_mem :: "number cache_of" where
  "example_inf_mem =
     Cache ''mem'' (Finite 4) (Finite 4) (Finite (- 1)) (Finite (- 1)) PosInf PosInf (Finite 1)
       None"

definition example_inf_cache_2 :: "number cache_of" where
  "example_inf_cache_2 =
     Cache ''cache_2'' (Finite 4) (Finite 4) (Finite 8) (Finite 2) (Finite 10) (Finite 10)
       (Finite 1) (Some example_inf_mem)"

definition example_float_mem :: "number cache_of" where
  "example_float_mem = map_cache_of Finite example_mem"

definition example_float_cache_2 :: "number cache_of" where
  "example_float_cache_2 = map_cache_of Finite example_cache_2"

text \<open>A configuration with \<^verbatim>\<open>cache_1\<close>, \<^verbatim>\<open>cache_3\<close> and \<^verbatim>\<open>mem\<close>.\<close>

definition example_config :: config where
  "example_config =
     [''architecture'' \<mapsto> [''word_size'' \<mapsto> 4, ''block_size'' \<mapsto> 4, ''write_back'' \<mapsto> 1],
      ''mem'' \<mapsto> [''hit_time'' \<mapsto> 100],
      ''cache_1'' \<mapsto> [''blocks'' \<mapsto> 4, ''associativity'' \<mapsto> 1, ''hit_time'' \<mapsto> 1],
      ''cache_3'' \<mapsto> [''blocks'' \<mapsto> 16, ''associativity'' \<mapsto> 2, ''hit_time'' \<mapsto> 10]]"

text \<open>
  A stand-in for the methods of \<^verbatim>\<open>cache_1\<close>: the contents of the hierarchy are reduced
  to the number of accesses made so far; every read misses and every write hits.
\<close>

definition example_read :: "nat read_method" where
  "example_read s address current_step = Inr (example_miss, s + 1)"

definition example_write :: "nat write_method" where
  "example_write s address flag current_step = Inr (example_hit, s + 1)"

text \<open>A read method that rejects the address \<^verbatim>\<open>zz\<close> and otherwise misses.\<close>

definition example_strict_read :: "nat read_method" where
  "example_strict_read s address current_step =
     (if address = ''zz'' then Inl (ValueError, s) else Inr (example_miss, s + 1))"

definition example_hierarchy :: "string \<rightharpoonup> cache" where
  "example_hierarchy = [''mem'' \<mapsto> example_mem, ''cache_1'' \<mapsto> example_l1]"

section \<open>Properties of \<^verbatim>\<open>compute_amat\<close>\<close>

lemma count_accesses_counts:
  "count_accesses nm outcomes m a =
     (m + missCount nm outcomes, a + accessCount nm outcomes)"
  by (induction outcomes arbitrary: m a)
     (auto simp: accessCount_def missCount_def split: option.splits)

lemma compute_amat_total: "\<exists>results'. compute_amat level outcomes results = Inr results'
    \<and> results' (name level) \<noteq> None"
proof (induction level outcomes results rule: compute_amat.induct)
  case (1 nm ws bs nb assoc ht wt wb outcomes results)
  show ?case by simp
next
  case (2 nm ws bs nb assoc ht wt wb nxt outcomes results)
  obtain n_miss n_access where c: "count_accesses nm outcomes 0 0 = (n_miss, n_access)"
    by (cases "count_accesses nm outcomes 0 0")
  show ?case
  proof (cases "n_access > 0")
    case True
    have d: "py_div (real n_miss) (real n_access) = Inr (real n_miss / real n_access)"
      using True by (simp add: py_div_def)
    from "2.IH"(1) [OF c [symmetric] True d]
    show ?thesis using c True d
      by (auto simp: getitem_def)
  next
    case False
    from "2.IH"(2) [OF c [symmetric] False]
    show ?thesis using c False
      by (auto simp: getitem_def)
  qed
qed

text \<open>
  Claim C2. For a level whose \<^verbatim>\<open>next_level\<close> is absent (main memory) and every list of
  access outcomes, \<^verbatim>\<open>compute_amat\<close> stores the level's \<^verbatim>\<open>hit_time\<close> under the level's
  name, whatever the outcomes say about the level and whatever the dictionary held
  before; nothing else in the dictionary changes.
\<close>

theorem compute_amat_main_memory:
  assumes "next_level level = None"
  shows "compute_amat level outcomes results
           = Inr (results(name level \<mapsto> hit_time level))"
  using assms by (cases level) simp

theorem compute_amat_main_memory_witness:
  "next_level example_mem = None
   \<and> compute_amat example_mem [example_miss, example_hit] Map.empty = Inr [''mem'' \<mapsto> 100]"
  using compute_amat_main_memory [of example_mem "[example_miss, example_hit]" Map.empty]
  by (simp add: example_mem_def)

lemma compute_amat_step:
  assumes "next_level level = Some nxt"
  shows "\<exists>results1 a. compute_amat nxt outcomes results = Inr results1
           \<and> results1 (name nxt) = Some a
           \<and> compute_amat level outcomes results
               = Inr (results1(name level \<mapsto>
                   (if 0 < accessCount (name level) outcomes
                    then hit_time level
                         + real (missCount (name level) outcomes)
                           / real (accessCount (name level) outcomes) * a
                    else 0 * a)))"
proof -
  obtain results1 where r: "compute_amat nxt outcomes results = Inr results1"
      and "results1 (name nxt) \<noteq> None"
    using compute_amat_total [of nxt outcomes results] by blast
  then obtain a where a: "results1 (name nxt) = Some a" by blast
  from assms r a show ?thesis
    by (cases level) (simp add: count_accesses_counts py_div_def getitem_def)
qed

lemma accessCount_zero:
  "(\<forall>r \<in> set outcomes. nm \<notin> dom (hit_list r)) \<Longrightarrow> accessCount nm outcomes = 0"
  by (auto simp: accessCount_def filter_empty_conv)

text \<open>
  Claim C1. Let a level have a next level, and let at least one outcome's \<^verbatim>\<open>hit_list\<close>
  contain the level's name. Then \<^verbatim>\<open>compute_amat\<close> returns, the recursive call on the next
  level leaves a value \<open>a\<close> under the next level's name, and the call on the level
  stores \<open>hit_time + missCount / accessCount * a\<close> under the level's name in the
  dictionary that the recursive call left. \<open>accessCount\<close> and \<open>missCount\<close> are the counts
  in the spec's words.
\<close>

theorem compute_amat_recursive_case:
  assumes "next_level level = Some nxt"
    and "0 < accessCount (name level) outcomes"
  shows "\<exists>results1 a. compute_amat nxt outcomes results = Inr results1
           \<and> results1 (name nxt) = Some a
           \<and> compute_amat level outcomes results
               = Inr (results1(name level \<mapsto>
                   hit_time level
                   + real (missCount (name level) outcomes)
                     / real (accessCount (name level) outcomes) * a))"
  using compute_amat_step [OF assms(1), of outcomes results] assms(2) by simp

theorem compute_amat_recursive_case_witness:
  "next_level example_l1 = Some example_mem
   \<and> 0 < accessCount (name example_l1) [example_miss, example_hit, example_miss]
   \<and> compute_amat example_l1 [example_miss, example_hit, example_miss] Map.empty
       = Inr [''mem'' \<mapsto> 100, ''cache_1'' \<mapsto> 1 + 2 / 3 * 100]"
  using compute_amat_recursive_case
    [of example_l1 example_mem "[example_miss, example_hit, example_miss]" Map.empty]
  by (simp add: example_l1_def example_mem_def example_miss_def example_hit_def
      accessCount_def missCount_def del: not_None_eq)

text \<open>
  The same function on numbers that may be infinite or NaN. It returns for every input,
  and on levels and dictionaries whose numbers are all finite it computes what
  \<^verbatim>\<open>compute_amat\<close> on real numbers computes.
\<close>

lemma compute_amat_float_total:
  "\<exists>results'. compute_amat_float level outcomes results = Inr results'
      \<and> results' (name level) \<noteq> None"
proof (induction level outcomes results rule: compute_amat_float.induct)
  case (1 nm ws bs nb assoc ht wt wb outcomes results)
  show ?case by simp
next
  case (2 nm ws bs nb assoc ht wt wb nxt outcomes results)
  obtain n_miss n_access where c: "count_accesses nm outcomes 0 0 = (n_miss, n_access)"
    by (cases "count_accesses nm outcomes 0 0")
  show ?case
  proof (cases "n_access > 0")
    case True
    have d: "py_div (real n_miss) (real n_access) = Inr (real n_miss / real n_access)"
      using True by (simp add: py_div_def)
    from "2.IH"(1) [OF c [symmetric] True d]
    show ?thesis using c True d
      by (auto simp: getitem_def)
  next
    case False
    from "2.IH"(2) [OF c [symmetric] False]
    show ?thesis using c False
      by (auto simp: getitem_def)
  qed
qed

lemma finite_results_upd: "finite_results (r(k \<mapsto> v)) = (finite_results r)(k \<mapsto> Finite v)"
  by (auto simp: finite_results_def)

lemma finite_results_apply: "finite_results r k = map_option Finite (r k)"
  by (simp add: finite_results_def)

lemma compute_amat_float_finite:
  "compute_amat_float (map_cache_of Finite level) outcomes (finite_results results)
     = (case compute_amat level outcomes results of
          Inl e \<Rightarrow> Inl e
        | Inr r \<Rightarrow> Inr (finite_results r))"
proof (induction level outcomes results rule: compute_amat.induct)
  case (1 nm ws bs nb assoc ht wt wb outcomes results)
  show ?case by (simp add: finite_results_upd)
next
  case (2 nm ws bs nb assoc ht wt wb nxt outcomes results)
  obtain n_miss n_access where c: "count_accesses nm outcomes 0 0 = (n_miss, n_access)"
    by (cases "count_accesses nm outcomes 0 0")
  show ?case
  proof (cases "n_access > 0")
    case True
    have d: "py_div (real n_miss) (real n_access) = Inr (real n_miss / real n_access)"
      using True by (simp add: py_div_def)
    from "2.IH"(1) [OF c [symmetric] True d]
    show ?thesis using c True d
      by (auto simp: getitem_def finite_results_upd finite_results_apply cache_of.map_sel
          split: sum.splits option.splits)
  next
    case False
    from "2.IH"(2) [OF c [symmetric] False]
    show ?thesis using c False
      by (auto simp: getitem_def finite_results_upd finite_results_apply cache_of.map_sel
          split: sum.splits option.splits)
  qed
qed

lemma num_mul_zero: "num_mul (Finite 0) a = (if is_finite a then Finite 0 else NaN)"
  by (cases a) simp_all

text \<open>
  Claim C3, as amended. Let a level have a next level, and let no outcome's \<^verbatim>\<open>hit_list\<close>
  contain the level's name. Then \<^verbatim>\<open>compute_amat\<close> returns (no exception), and the value it
  stores under the level's name is the product of 0 and the value \<open>a\<close> that the recursive
  call left under the next level's name: exactly 0 when \<open>a\<close> is finite, and NaN when \<open>a\<close>
  is an infinity or NaN. The rest of the dictionary is what the recursive call left.
\<close>

theorem compute_amat_zero_access_finite:
  assumes "next_level level = Some nxt"
    and "\<forall>r \<in> set outcomes. name level \<notin> dom (hit_list r)"
  shows "\<exists>results1 a. compute_amat_float nxt outcomes results = Inr results1
           \<and> results1 (name nxt) = Some a
           \<and> compute_amat_float level outcomes results
               = Inr (results1(name level \<mapsto> (if is_finite a then Finite 0 else NaN)))"
proof -
  obtain results1 where r: "compute_amat_float nxt outcomes results = Inr results1"
      and "results1 (name nxt) \<noteq> None"
    using compute_amat_float_total [of nxt outcomes results] by blast
  then obtain a where a: "results1 (name nxt) = Some a" by blast
  have z: "count_accesses (name level) outcomes 0 0 = (missCount (name level) outcomes, 0)"
    using accessCount_zero [OF assms(2)] by (simp add: count_accesses_counts)
  from assms(1) r a z show ?thesis
    by (cases level) (simp add: getitem_def num_mul_zero)
qed

theorem compute_amat_zero_access_finite_witness:
  "next_level example_float_cache_2 = Some example_float_mem
   \<and> name example_float_cache_2 \<notin> dom (hit_list example_miss)
   \<and> name example_float_cache_2 \<notin> dom (hit_list example_hit)
   \<and> compute_amat_float example_float_cache_2 [example_miss, example_hit] Map.empty
       = Inr [''mem'' \<mapsto> Finite 100, ''cache_2'' \<mapsto> Finite 0]"
  using compute_amat_zero_access_finite
    [of example_float_cache_2 example_float_mem "[example_miss, example_hit]" Map.empty]
  by (simp add: example_float_cache_2_def example_float_mem_def example_cache_2_def
      example_mem_def example_miss_def example_hit_def)

text \<open>
  Claim C3 as it was stated (the value is 0 and not NaN for every such level) fails
  on the code. With \<^verbatim>\<open>hit_time: .inf\<close> for \<^verbatim>\<open>mem\<close> and one access that hits in \<^verbatim>\<open>cache_1\<close>,
  the level \<^verbatim>\<open>cache_2\<close> has a next level and is named in no \<^verbatim>\<open>hit_list\<close>, and the value
  stored for it is the product of 0 and infinity, which is NaN.
\<close>

theorem compute_amat_zero_access_counterexample:
  "next_level example_inf_cache_2 = Some example_inf_mem
   \<and> name example_inf_cache_2 \<notin> dom (hit_list example_hit)
   \<and> compute_amat_float example_inf_cache_2 [example_hit] Map.empty
       = Inr [''mem'' \<mapsto> PosInf, ''cache_2'' \<mapsto> NaN]
   \<and> NaN \<noteq> Finite 0"
  by (simp add: example_inf_cache_2_def example_inf_mem_def example_hit_def getitem_def)

text \<open>
  Claim C10. The only division of \<^verbatim>\<open>compute_amat\<close> raises \<^verbatim>\<open>ZeroDivisionError\<close> in the
  model when its divisor is 0. For every level, every list of outcomes (the empty one
  too) and every content of the dictionary, \<^verbatim>\<open>compute_amat\<close> does not raise that
  exception: it returns a mapping.
\<close>

theorem compute_amat_no_division_by_zero:
  "compute_amat level outcomes results \<noteq> Inl ZeroDivisionError
   \<and> (\<exists>results'. compute_amat level outcomes results = Inr results')"
  using compute_amat_total [of level outcomes results] by auto

text \<open>
  Claim C8. The dictionary \<^verbatim>\<open>results\<close> outlives a top-level call. There are two
  successive top-level calls, the first in a fresh process (the dictionary is empty)
  on a hierarchy with \<^verbatim>\<open>cache_2\<close>, the second on a hierarchy without it, such that the
  mapping returned by the second call still holds the entry of \<^verbatim>\<open>cache_2\<close> that the first
  call made, and differs from what the same second call returns in a fresh process.
\<close>

theorem compute_amat_results_leak:
  "\<exists>level1 outcomes1 level2 outcomes2 results1 results2 fresh.
     compute_amat level1 outcomes1 Map.empty = Inr results1
     \<and> compute_amat level2 outcomes2 results1 = Inr results2
     \<and> compute_amat level2 outcomes2 Map.empty = Inr fresh
     \<and> results2 \<noteq> fresh
     \<and> results1 ''cache_2'' = Some 0
     \<and> results2 ''cache_2'' = Some 0
     \<and> fresh ''cache_2'' = None"
proof -
  let ?r1 = "[''mem'' \<mapsto> 100, ''cache_2'' \<mapsto> 0, ''cache_1'' \<mapsto> (1::real)]"
  let ?r2 = "[''cache_2'' \<mapsto> 0, ''mem'' \<mapsto> 100, ''cache_1'' \<mapsto> (101::real)]"
  let ?f = "[''mem'' \<mapsto> 100, ''cache_1'' \<mapsto> (101::real)]"
  have 1: "compute_amat example_cache_1 [example_hit] Map.empty = Inr ?r1"
    by (simp add: example_cache_1_def example_cache_2_def example_mem_def example_hit_def
        py_div_def getitem_def)
  have 2: "compute_amat example_l1 [example_miss] ?r1 = Inr ?r2"
    by (simp add: example_l1_def example_mem_def example_miss_def py_div_def getitem_def)
  have 3: "compute_amat example_l1 [example_miss] Map.empty = Inr ?f"
    by (simp add: example_l1_def example_mem_def example_miss_def py_div_def getitem_def)
  have 4: "?r2 \<noteq> ?f"
  proof
    assume "?r2 = ?f"
    then have "?r2 ''cache_2'' = ?f ''cache_2''" by (rule arg_cong)
    then show False by simp
  qed
  from 1 2 3 4 show ?thesis
    by (intro exI [of _ example_cache_1] exI [of _ "[example_hit]"] exI [of _ example_l1]
        exI [of _ "[example_miss]"] exI [of _ ?r1] exI [of _ ?r2] exI [of _ ?f]) simp
qed

section \<open>Properties of \<^verbatim>\<open>simulate\<close>\<close>

lemma simulate_loop_append:
  "simulate_loop rd wr trace (xs @ ys) m =
     (case simulate_loop rd wr trace xs m of
        Inl x \<Rightarrow> Inl x
      | Inr m' \<Rightarrow> simulate_loop rd wr trace ys m')"
  by (induction xs arbitrary: m) (auto split: sum.splits)

lemma simulate_step_Inr:
  assumes "simulate_step rd wr trace i m = Inr m'"
  shows "i < length trace \<and> well_formed (trace ! i)
         \<and> (\<exists>r s'. perform rd wr (call_of (trace ! i) i) (store m) = Inr (r, s')
               \<and> m' = m\<lparr>store := s', calls := calls m @ [call_of (trace ! i) i],
                          responses := responses m @ [r]\<rparr>)"
  using assms
  by (auto simp: simulate_step_def well_formed_def call_of_def
      split: if_splits list.splits sum.splits prod.splits)

lemma simulate_step_Inl:
  assumes "simulate_step rd wr trace i m = Inl (e, m')"
  shows "responses m' = responses m \<and> amat_results m' = amat_results m
         \<and> reported m' = reported m
         \<and> (calls m' = calls m \<or> calls m' = calls m @ [call_of (trace ! i) i])"
  using assms
  by (auto simp: simulate_step_def call_of_def
      split: if_splits list.splits sum.splits prod.splits)

lemma simulate_step_invalid_op:
  assumes "i < length trace" and "str_split (trace ! i) = [address, op]"
    and "op \<noteq> ''R''" and "op \<noteq> ''W''"
  shows "simulate_step rd wr trace i m = Inl (raise_name ''InvalidOpError'', m)"
  using assms by (simp add: simulate_step_def)

lemma raise_InvalidOpError: "raise_name ''InvalidOpError'' = NameError ''InvalidOpError''"
  by (simp add: raise_name_def module_globals_def builtin_names_def)


lemma call_step_call_of: "call_step (call_of line i) = i"
  by (simp add: call_of_def split: list.splits)

lemma simulate_loop_Inr:
  assumes "simulate_loop rd wr trace steps m0 = Inr m"
  shows "(\<exists>ext. responses m = responses m0 @ ext \<and> length ext = length steps)
         \<and> calls m = calls m0 @ map (\<lambda>i. call_of (trace ! i) i) steps
         \<and> amat_results m = amat_results m0 \<and> reported m = reported m0"
  using assms
proof (induction steps arbitrary: m0)
  case Nil
  then show ?case by simp
next
  case (Cons i steps)
  from Cons.prems obtain m1 where s1: "simulate_step rd wr trace i m0 = Inr m1"
      and l1: "simulate_loop rd wr trace steps m1 = Inr m"
    by (auto split: sum.splits)
  from simulate_step_Inr [OF s1] obtain r s' where
      m1: "m1 = m0\<lparr>store := s', calls := calls m0 @ [call_of (trace ! i) i],
                    responses := responses m0 @ [r]\<rparr>"
    by blast
  from Cons.IH [OF l1] show ?case by (auto simp: m1)
qed

lemma simulate_loop_Inl:
  assumes "simulate_loop rd wr trace steps m0 = Inl (e, m)"
  shows "(\<exists>ext. responses m = responses m0 @ ext \<and> length ext < length steps)
         \<and> set (calls m) \<subseteq> set (calls m0) \<union> (\<lambda>i. call_of (trace ! i) i) ` set steps
         \<and> amat_results m = amat_results m0 \<and> reported m = reported m0"
  using assms
proof (induction steps arbitrary: m0)
  case Nil
  then show ?case by simp
next
  case (Cons i steps)
  show ?case
  proof (cases "simulate_step rd wr trace i m0")
    case (Inl x)
    with Cons.prems have "simulate_step rd wr trace i m0 = Inl (e, m)" by simp
    from simulate_step_Inl [OF this] show ?thesis by auto
  next
    case (Inr m1)
    with Cons.prems have l1: "simulate_loop rd wr trace steps m1 = Inl (e, m)" by simp
    from simulate_step_Inr [OF Inr] obtain r s' where
        m1: "m1 = m0\<lparr>store := s', calls := calls m0 @ [call_of (trace ! i) i],
                      responses := responses m0 @ [r]\<rparr>"
      by blast
    from Cons.IH [OF l1] show ?thesis by (auto simp: m1)
  qed
qed

lemma upt_split: "i < n \<Longrightarrow> [0..<n] = [0..<i] @ i # [Suc i..<n]"
  by (metis le_add2 le_add_same_cancel2 less_imp_add_positive upt_add_eq_append upt_conv_Cons)

lemma simulate_loop_invalid_op:
  assumes "i < length trace" and "str_split (trace ! i) = [address, op]"
    and "op \<noteq> ''R''" and "op \<noteq> ''W''"
  shows "simulate_loop rd wr trace [0..<length trace] m0 =
           (case simulate_loop rd wr trace [0..<i] m0 of
              Inl x \<Rightarrow> Inl x
            | Inr mi \<Rightarrow> Inl (raise_name ''InvalidOpError'', mi))"
  by (simp add: upt_split [OF assms(1)] simulate_loop_append
      simulate_step_invalid_op [OF assms] split: sum.splits)

text \<open>
  Claim C5. Let line \<open>i\<close> of the trace consist of two words of which the second is neither
  \<^verbatim>\<open>R\<close> nor \<^verbatim>\<open>W\<close>. Then \<^verbatim>\<open>simulate\<close> ends with an exception, whatever the methods of
  \<^verbatim>\<open>cache_1\<close> do. In the state at that moment \<^verbatim>\<open>responses\<close> holds at most \<open>i\<close> records,
  every call issued on \<^verbatim>\<open>cache_1\<close> belongs to a step before \<open>i\<close>, \<^verbatim>\<open>analyze_results\<close> has
  reported nothing and the dictionary of \<^verbatim>\<open>compute_amat\<close> is untouched. If the hierarchy
  has \<^verbatim>\<open>cache_1\<close> and the lines before \<open>i\<close> are processed without an exception, the
  state at the abort is the state after those \<open>i\<close> lines: \<open>i\<close> records, \<open>i\<close> calls, none
  for line \<open>i\<close> or a later line.
\<close>

theorem simulate_invalid_op_aborts:
  assumes "i < length trace" and "str_split (trace ! i) = [address, op]"
    and "op \<noteq> ''R''" and "op \<noteq> ''W''"
  shows "\<exists>e m. simulate hierarchy trace rd wr s results = Inl (e, m)
           \<and> length (responses m) \<le> i
           \<and> (\<forall>c \<in> set (calls m). call_step c < i)
           \<and> amat_results m = results \<and> reported m = None
           \<and> (\<forall>mi. hierarchy ''cache_1'' \<noteq> None
                 \<longrightarrow> simulate_loop rd wr trace [0..<i] (start s results) = Inr mi
                 \<longrightarrow> m = mi \<and> length (responses m) = i \<and> length (calls m) = i)"
proof (cases "hierarchy ''cache_1''")
  case None
  then show ?thesis by (simp add: simulate_def getitem_def start_def)
next
  case (Some l1)
  note loop = simulate_loop_invalid_op [OF assms, of rd wr "start s results"]
  show ?thesis
  proof (cases "simulate_loop rd wr trace [0..<i] (start s results)")
    case (Inl x)
    obtain e m where x: "x = (e, m)" by (cases x)
    from simulate_loop_Inl [OF Inl [unfolded x]]
    have "length (responses m) \<le> i" "\<forall>c \<in> set (calls m). call_step c < i"
      "amat_results m = results" "reported m = None"
      by (auto simp: start_def call_step_call_of)
    moreover have "simulate hierarchy trace rd wr s results = Inl (e, m)"
      using Some loop Inl x by (simp add: simulate_def getitem_def)
    ultimately show ?thesis using Inl by simp
  next
    case (Inr mi)
    from simulate_loop_Inr [OF Inr]
    have "length (responses mi) = i" "length (calls mi) = i"
      "\<forall>c \<in> set (calls mi). call_step c < i"
      "amat_results mi = results" "reported mi = None"
      by (auto simp: start_def call_step_call_of)
    moreover have "simulate hierarchy trace rd wr s results
        = Inl (raise_name ''InvalidOpError'', mi)"
      using Some loop Inr by (simp add: simulate_def getitem_def)
    ultimately show ?thesis using Inr by simp
  qed
qed

theorem simulate_invalid_op_aborts_witness:
  "(1::nat) < length [''0 R'', ''4 X'', ''8 W'']
   \<and> str_split ([''0 R'', ''4 X'', ''8 W''] ! 1) = [''4'', ''X'']
   \<and> ''X'' \<noteq> ''R'' \<and> ''X'' \<noteq> ''W''
   \<and> (\<exists>e. simulate example_hierarchy [''0 R'', ''4 X'', ''8 W''] example_read example_write 0
             Map.empty
           = Inl (e, \<lparr>store = 1, responses = [example_miss], calls = [ReadCall ''0'' 0],
                      amat_results = Map.empty, reported = None\<rparr>))"
proof -
  have h: "(1::nat) < length [''0 R'', ''4 X'', ''8 W'']"
    "str_split ([''0 R'', ''4 X'', ''8 W''] ! 1) = [''4'', ''X'']"
    "''X'' \<noteq> ''R''" "''X'' \<noteq> ''W''"
    by (simp_all add: str_split_def is_space_def)
  have l: "simulate_loop example_read example_write [''0 R'', ''4 X'', ''8 W''] [0..<1]
      (start 0 Map.empty)
      = Inr \<lparr>store = 1, responses = [example_miss], calls = [ReadCall ''0'' 0],
             amat_results = Map.empty, reported = None\<rparr>"
    by (simp add: start_def simulate_step_def str_split_def is_space_def example_read_def)
  have c: "example_hierarchy ''cache_1'' \<noteq> None"
    by (simp add: example_hierarchy_def)
  from simulate_invalid_op_aborts [OF h, of example_hierarchy example_read example_write 0
      Map.empty] l c
  show ?thesis using h by auto
qed

text \<open>
  Claim C9. When \<^verbatim>\<open>simulate\<close> reaches a line whose second word is neither \<^verbatim>\<open>R\<close> nor
  \<^verbatim>\<open>W\<close>, the exception that leaves it is \<^verbatim>\<open>NameError\<close> for the name \<^verbatim>\<open>InvalidOpError\<close>:
  neither the module nor the builtins bind that name.
\<close>

theorem simulate_invalid_op_NameError:
  assumes "i < length trace" and "str_split (trace ! i) = [address, op]"
    and "op \<noteq> ''R''" and "op \<noteq> ''W''"
    and "hierarchy ''cache_1'' = Some l1"
    and "simulate_loop rd wr trace [0..<i] (start s results) = Inr mi"
  shows "simulate hierarchy trace rd wr s results = Inl (NameError ''InvalidOpError'', mi)
         \<and> ''InvalidOpError'' \<notin> set module_globals
         \<and> ''InvalidOpError'' \<notin> set builtin_names"
proof -
  have "simulate hierarchy trace rd wr s results = Inl (raise_name ''InvalidOpError'', mi)"
    using simulate_loop_invalid_op [OF assms(1-4), of rd wr "start s results"] assms(5,6)
    by (simp add: simulate_def getitem_def)
  moreover have "''InvalidOpError'' \<notin> set module_globals"
    by (simp add: module_globals_def)
  moreover have "''InvalidOpError'' \<notin> set builtin_names"
    by (simp add: builtin_names_def)
  ultimately show ?thesis by (simp add: raise_InvalidOpError)
qed

theorem simulate_invalid_op_NameError_witness:
  "(1::nat) < length [''16 W'', ''20 r'']
   \<and> str_split ([''16 W'', ''20 r''] ! 1) = [''20'', ''r'']
   \<and> ''r'' \<noteq> ''R'' \<and> ''r'' \<noteq> ''W''
   \<and> example_hierarchy ''cache_1'' = Some example_l1
   \<and> simulate example_hierarchy [''16 W'', ''20 r''] example_read example_write 0 Map.empty
       = Inl (NameError ''InvalidOpError'',
              \<lparr>store = 1, responses = [example_hit], calls = [WriteCall ''16'' True 0],
               amat_results = Map.empty, reported = None\<rparr>)"
proof -
  have h: "(1::nat) < length [''16 W'', ''20 r'']"
    "str_split ([''16 W'', ''20 r''] ! 1) = [''20'', ''r'']"
    "''r'' \<noteq> ''R''" "''r'' \<noteq> ''W''"
    "example_hierarchy ''cache_1'' = Some example_l1"
    by (simp_all add: str_split_def is_space_def example_hierarchy_def)
  have l: "simulate_loop example_read example_write [''16 W'', ''20 r''] [0..<1]
      (start 0 Map.empty)
      = Inr \<lparr>store = 1, responses = [example_hit], calls = [WriteCall ''16'' True 0],
             amat_results = Map.empty, reported = None\<rparr>"
    by (simp add: start_def simulate_step_def str_split_def is_space_def example_write_def)
  from simulate_invalid_op_NameError [where hierarchy = example_hierarchy, OF h l]
  show ?thesis using h by simp
qed

lemma main_trace_no_comment:
  "main_trace trace = [line \<leftarrow> trace. line = [] \<or> hd line \<noteq> CHR ''#'']"
proof -
  have "startswith line ''#'' \<longleftrightarrow> \<not> (line = [] \<or> hd line \<noteq> CHR ''#'')" for line
    by (cases line) (simp_all add: startswith_def)
  then show ?thesis by (simp add: main_trace_def)
qed

lemma simulate_loop_prefix:
  assumes "simulate_loop rd wr trace [0..<n] m0 = Inr m" and "k < n"
  shows "\<exists>mk s'. simulate_loop rd wr trace [0..<k] m0 = Inr mk
           \<and> length (responses mk) = length (responses m0) + k
           \<and> perform rd wr (call_of (trace ! k) k) (store mk)
               = Inr (responses m ! (length (responses m0) + k), s')"
proof -
  from assms(1) obtain mk mk' where
      a: "simulate_loop rd wr trace [0..<k] m0 = Inr mk"
      and b: "simulate_step rd wr trace k mk = Inr mk'"
      and c: "simulate_loop rd wr trace [Suc k..<n] mk' = Inr m"
    by (auto simp: upt_split [OF assms(2)] simulate_loop_append split: sum.splits)
  from simulate_loop_Inr [OF a] have len: "length (responses mk) = length (responses m0) + k"
    by auto
  from simulate_step_Inr [OF b] obtain r s' where
      p: "perform rd wr (call_of (trace ! k) k) (store mk) = Inr (r, s')"
      and r: "responses mk' = responses mk @ [r]"
    by auto
  from simulate_loop_Inr [OF c] obtain ext where "responses m = responses mk' @ ext"
    by auto
  then have "responses m ! (length (responses m0) + k) = r"
    using r len by (simp add: nth_append)
  with a len p show ?thesis by auto
qed

lemma simulate_step_returns:
  assumes "i < length trace" and "well_formed (trace ! i)"
    and "perform rd wr (call_of (trace ! i) i) (store m) = Inr (r, s')"
  shows "\<exists>m'. simulate_step rd wr trace i m = Inr m'"
  using assms
  by (auto simp: simulate_step_def well_formed_def call_of_def split: list.splits)

lemma simulate_loop_returns:
  assumes "n \<le> length trace"
    and "\<forall>i < n. well_formed (trace ! i)"
    and "\<forall>k < n. \<forall>mk. simulate_loop rd wr trace [0..<k] m0 = Inr mk
           \<longrightarrow> (\<exists>r s'. perform rd wr (call_of (trace ! k) k) (store mk) = Inr (r, s'))"
  shows "\<exists>m. simulate_loop rd wr trace [0..<n] m0 = Inr m"
  using assms
proof (induction n)
  case 0
  show ?case by simp
next
  case (Suc n)
  from Suc obtain mn where mn: "simulate_loop rd wr trace [0..<n] m0 = Inr mn"
    by auto
  from Suc.prems(3) mn obtain r s' where
      "perform rd wr (call_of (trace ! n) n) (store mn) = Inr (r, s')"
    by blast
  from simulate_step_returns [OF _ _ this] Suc.prems(1,2)
  obtain m' where "simulate_step rd wr trace n mn = Inr m'" by auto
  with mn show ?case by (simp add: simulate_loop_append)
qed

text \<open>
  Claim C6. \<^verbatim>\<open>main\<close> keeps exactly the lines that do not begin with \<^verbatim>\<open>#\<close>, in their
  order. Let every line that is kept be a well-formed instruction, let the hierarchy
  have \<^verbatim>\<open>cache_1\<close>, and let no call of this run raise: for every kept line \<open>k\<close>, the
  call that the line stands for, made on the contents that the first \<open>k\<close> lines left,
  returns. (Nothing is assumed about other addresses, steps or contents.) Then the
  simulation returns, the calls issued on \<^verbatim>\<open>cache_1\<close> are one per kept line, in the order
  of the lines, line \<open>i\<close> with step index \<open>i\<close> (a read for \<^verbatim>\<open>R\<close>, a write with flag \<^verbatim>\<open>True\<close>
  for \<^verbatim>\<open>W\<close>), and \<^verbatim>\<open>responses\<close> has one record per kept line: record \<open>k\<close> is the one that
  the call of line \<open>k\<close> returned on the contents that the first \<open>k\<close> lines left.
\<close>

theorem main_simulate_one_call_per_line:
  assumes "hierarchy ''cache_1'' = Some l1"
    and "\<forall>line \<in> set trace. \<not> startswith line ''#'' \<longrightarrow> well_formed line"
    and "\<forall>k < length (main_trace trace). \<forall>mk.
           simulate_loop rd wr (main_trace trace) [0..<k] (start s results) = Inr mk
           \<longrightarrow> (\<exists>r s'. perform rd wr (call_of (main_trace trace ! k) k) (store mk)
                         = Inr (r, s'))"
  shows "main_trace trace = [line \<leftarrow> trace. line = [] \<or> hd line \<noteq> CHR ''#'']
         \<and> (\<exists>m. main_simulate hierarchy trace rd wr s results = Inr m
               \<and> calls m = map (\<lambda>i. call_of (main_trace trace ! i) i)
                             [0..<length (main_trace trace)]
               \<and> length (responses m) = length (main_trace trace)
               \<and> (\<forall>k < length (main_trace trace). \<exists>mk s'.
                     simulate_loop rd wr (main_trace trace) [0..<k] (start s results) = Inr mk
                     \<and> length (responses mk) = k
                     \<and> perform rd wr (call_of (main_trace trace ! k) k) (store mk)
                         = Inr (responses m ! k, s')))"
proof -
  let ?t = "main_trace trace"
  have "\<forall>line \<in> set ?t. well_formed line"
    using assms(2) by (simp add: main_trace_def)
  then have wf: "\<forall>i < length ?t. well_formed (?t ! i)"
    by simp
  obtain m where m: "simulate_loop rd wr ?t [0..<length ?t] (start s results) = Inr m"
    using simulate_loop_returns [OF le_refl wf assms(3)] by blast
  obtain a where a: "compute_amat l1 (responses m) (amat_results m) = Inr a"
    using compute_amat_total by blast
  let ?rep = "\<lparr>n_instructions = length (responses m),
      total_time = foldl (\<lambda>t r. t + time r) 0 (responses m), amat = a\<rparr>"
  let ?m = "m\<lparr>amat_results := a, reported := Some ?rep\<rparr>"
  have res: "main_simulate hierarchy trace rd wr s results = Inr ?m"
    using assms(1) m a
    by (simp add: main_simulate_def simulate_def analyze_results_def getitem_def)
  from simulate_loop_Inr [OF m]
  have cl: "calls ?m = map (\<lambda>i. call_of (?t ! i) i) [0..<length ?t]"
    and ln: "length (responses ?m) = length ?t"
    by (auto simp: start_def)
  have pre: "\<forall>k < length ?t. \<exists>mk s'.
      simulate_loop rd wr ?t [0..<k] (start s results) = Inr mk
      \<and> length (responses mk) = k
      \<and> perform rd wr (call_of (?t ! k) k) (store mk) = Inr (responses ?m ! k, s')"
    using simulate_loop_prefix [OF m] by (simp add: start_def)
  from res cl ln pre main_trace_no_comment show ?thesis by blast
qed

theorem main_simulate_one_call_per_line_witness:
  "example_hierarchy ''cache_1'' = Some example_l1
   \<and> well_formed ''0 R'' \<and> well_formed ''4 W''
   \<and> example_strict_read 0 ''zz'' 0 = Inl (ValueError, 0)
   \<and> (\<forall>s. \<exists>r s'. perform example_strict_read example_write (call_of ''0 R'' 0) s
                    = Inr (r, s'))
   \<and> (\<forall>s. \<exists>r s'. perform example_strict_read example_write (call_of ''4 W'' 1) s
                    = Inr (r, s'))
   \<and> main_trace [''# trace'', ''0 R'', ''#'', ''4 W''] = [''0 R'', ''4 W'']
   \<and> (\<exists>m. main_simulate example_hierarchy [''# trace'', ''0 R'', ''#'', ''4 W'']
             example_strict_read example_write 0 Map.empty = Inr m
          \<and> calls m = [ReadCall ''0'' 0, WriteCall ''4'' True 1]
          \<and> length (responses m) = 2)"
proof -
  let ?T = "[''# trace'', ''0 R'', ''#'', ''4 W'']"
  have h: "example_hierarchy ''cache_1'' = Some example_l1"
    by (simp add: example_hierarchy_def)
  have w: "well_formed ''0 R''" "well_formed ''4 W''"
    by (simp_all add: well_formed_def str_split_def is_space_def)
  have c: "startswith ''# trace'' ''#''" "startswith ''#'' ''#''"
    "\<not> startswith ''0 R'' ''#''" "\<not> startswith ''4 W'' ''#''"
    by (simp_all add: startswith_def)
  have t: "main_trace ?T = [''0 R'', ''4 W'']"
    by (simp add: main_trace_def c)
  have a: "\<forall>line \<in> set ?T. \<not> startswith line ''#'' \<longrightarrow> well_formed line"
    using w c by simp
  have k: "call_of ''0 R'' i = ReadCall ''0'' i" "call_of ''4 W'' i = WriteCall ''4'' True i"
    for i
    by (simp_all add: call_of_def str_split_def is_space_def)
  have z: "example_strict_read 0 ''zz'' 0 = Inl (ValueError, 0)"
    by (simp add: example_strict_read_def)
  have p: "\<forall>s. \<exists>r s'. perform example_strict_read example_write (call_of ''0 R'' 0) s
      = Inr (r, s')"
    "\<forall>s. \<exists>r s'. perform example_strict_read example_write (call_of ''4 W'' 1) s
      = Inr (r, s')"
    by (simp_all add: k example_strict_read_def example_write_def)
  have n: "\<forall>k < length (main_trace ?T). \<forall>mk.
      simulate_loop example_strict_read example_write (main_trace ?T) [0..<k]
        (start 0 Map.empty) = Inr mk
      \<longrightarrow> (\<exists>r s'. perform example_strict_read example_write
                     (call_of (main_trace ?T ! k) k) (store mk) = Inr (r, s'))"
    unfolding t
  proof (intro allI impI)
    fix k :: nat and mk :: "nat machine"
    assume "k < length [''0 R'', ''4 W'']"
    then have "k = 0 \<or> k = 1" by auto
    then show "\<exists>r s'. perform example_strict_read example_write
        (call_of ([''0 R'', ''4 W''] ! k) k) (store mk) = Inr (r, s')"
      using p by auto
  qed
  have u: "[0..<length [''0 R'', ''4 W'']] = [0, 1]"
    by (simp add: upt_rec)
  from main_simulate_one_call_per_line [where hierarchy = example_hierarchy, OF h a n]
  show ?thesis unfolding t u using h w z p k by auto
qed

section \<open>Properties of \<^verbatim>\<open>build_hierarchy\<close>\<close>

lemma build_cache_mem:
  assumes "configuration configs"
  shows "\<exists>ws bs ht wb. build_cache configs ''mem'' nxt
           = Inr (Cache ''mem'' ws bs (- 1) (- 1) ht ht wb nxt)"
  using assms
  by (auto simp: configuration_def build_cache_def config_item_def getitem_def err_bind_def
      split: option.splits)

lemma build_cache_level:
  assumes "configuration configs" and "configs nm \<noteq> None"
    and "nm \<in> {''cache_1'', ''cache_2'', ''cache_3'', ''cache_4''}"
  shows "\<exists>ws bs nb assoc ht wb. build_cache configs nm nxt
           = Inr (Cache nm ws bs nb assoc ht ht wb nxt)"
proof -
  from assms have "level_entry (configs nm)"
    by (auto simp: configuration_def)
  with assms(1,2) have "\<exists>a d.  configs ''architecture'' = Some a \<and> configs nm = Some d \<and> a ''word_size'' \<noteq> None \<and> a ''block_size'' \<noteq> None \<and> a ''write_back'' \<noteq> None \<and>
     d ''blocks'' \<noteq> None \<and> d ''associativity'' \<noteq> None \<and> d ''hit_time'' \<noteq> None"
    by (auto simp: configuration_def level_entry_def split: option.splits)
  moreover have "nm \<noteq> ''mem''" using assms(3) by auto
  ultimately show ?thesis
    by (auto simp: build_cache_def config_item_def getitem_def err_bind_def)
qed

text \<open>
  Claim C4. For every configuration (with \<^verbatim>\<open>mem\<close> and \<^verbatim>\<open>cache_1\<close>, each level that is
  present giving the keys that \<^verbatim>\<open>build_cache\<close> reads), \<^verbatim>\<open>build_hierarchy\<close> returns a
  mapping. Following \<^verbatim>\<open>next_level\<close> from its \<^verbatim>\<open>cache_1\<close> visits \<^verbatim>\<open>cache_1\<close>, then exactly
  those of \<^verbatim>\<open>cache_2\<close>, \<^verbatim>\<open>cache_3\<close>, \<^verbatim>\<open>cache_4\<close> that the configuration has, in this
  order, then \<^verbatim>\<open>mem\<close>, whose \<^verbatim>\<open>next_level\<close> is \<^verbatim>\<open>None\<close>. Every level on the way is the
  entry of the mapping under its name, and the mapping has no other entry.
\<close>

theorem build_hierarchy_chain:
  assumes "configuration configs"
  shows "\<exists>hierarchy cache_1 main_memory.
           build_hierarchy configs = Inr hierarchy
           \<and> hierarchy ''cache_1'' = Some cache_1
           \<and> hierarchy ''mem'' = Some main_memory
           \<and> next_level main_memory = None
           \<and> map name (chain cache_1)
               = ''cache_1''
                 # [n \<leftarrow> [''cache_2'', ''cache_3'', ''cache_4'']. configs n \<noteq> None]
                 @ [''mem'']
           \<and> (\<forall>level \<in> set (chain cache_1). hierarchy (name level) = Some level)
           \<and> dom hierarchy = set (map name (chain cache_1))"
proof -
  obtain m where m: "build_cache configs ''mem'' None = Inr m"
      and m_name: "name m = ''mem''" and m_next: "next_level m = None"
    using build_cache_mem [OF assms, of None] by auto
  have c1: "configs ''cache_1'' \<noteq> None" using assms by (simp add: configuration_def)
  have lvl: "\<exists>c. build_cache configs nm (Some p) = Inr c \<and> name c = nm \<and> next_level c = Some p"
    if "configs nm \<noteq> None" "nm \<in> {''cache_1'', ''cache_2'', ''cache_3'', ''cache_4''}" for nm p
    using build_cache_level [OF assms that, of "Some p"] by auto
  define opt where "opt nm ph =
      (if configs nm \<noteq> None then
         err_bind (build_cache configs nm (Some (fst ph))) (\<lambda>c. Inr (c, (snd ph)(nm \<mapsto> c)))
       else Inr ph)" for nm and ph :: "cache \<times> (string \<rightharpoonup> cache)"
  have bh: "build_hierarchy configs =
      err_bind (build_cache configs ''mem'' None) (\<lambda>mm.
      err_bind (opt ''cache_4'' (mm, [''mem'' \<mapsto> mm])) (\<lambda>ph4.
      err_bind (opt ''cache_3'' ph4) (\<lambda>ph3.
      err_bind (opt ''cache_2'' ph3) (\<lambda>ph2.
      err_bind (build_cache configs ''cache_1'' (Some (fst ph2))) (\<lambda>k.
      Inr ((snd ph2)(''cache_1'' \<mapsto> k)))))))"
    unfolding build_hierarchy_def opt_def
    by (simp add: case_prod_unfold cong del: if_weak_cong)
  define inv where "inv names ph \<longleftrightarrow>
      map name (chain (fst ph)) = names @ [''mem'']
      \<and> (\<forall>l \<in> set (chain (fst ph)). snd ph (name l) = Some l)
      \<and> dom (snd ph) = set (names @ [''mem''])
      \<and> snd ph ''mem'' = Some m" for names and ph :: "cache \<times> (string \<rightharpoonup> cache)"
  have inv_names: "name ` set (chain (fst ph)) = set (names @ [''mem''])"
    if "inv names ph" for names ph
    using that by (metis inv_def set_map)
  have step: "\<exists>ph'. opt nm ph = Inr ph'
        \<and> inv ((if configs nm \<noteq> None then [nm] else []) @ names) ph'"
    if h1: "inv names ph" and h2: "nm \<in> {''cache_2'', ''cache_3'', ''cache_4''}"
      and h3: "nm \<notin> set names"
    for nm names ph
  proof (cases "configs nm = None")
    case True
    with h1 show ?thesis by (simp add: opt_def)
  next
    case False
    then obtain c where c: "build_cache configs nm (Some (fst ph)) = Inr c"
        "name c = nm" "next_level c = Some (fst ph)"
      using lvl [of nm "fst ph"] h2 by auto
    have ch: "chain c = c # chain (fst ph)" using c(3) by (cases c) simp
    have ne: "nm \<noteq> ''mem''" using h2 by auto
    have names: "name ` set (chain (fst ph)) = set (names @ [''mem''])"
      using h1 by (rule inv_names)
    have "inv (nm # names) (c, (snd ph)(nm \<mapsto> c))"
      unfolding inv_def
    proof (intro conjI)
      show "map name (chain (fst (c, (snd ph)(nm \<mapsto> c)))) = (nm # names) @ [''mem'']"
        using h1 c(2) by (simp add: ch inv_def)
      show "\<forall>l \<in> set (chain (fst (c, (snd ph)(nm \<mapsto> c)))).
              snd (c, (snd ph)(nm \<mapsto> c)) (name l) = Some l"
      proof
        fix l assume "l \<in> set (chain (fst (c, (snd ph)(nm \<mapsto> c))))"
        then consider "l = c" | "l \<in> set (chain (fst ph))" by (auto simp: ch)
        then show "snd (c, (snd ph)(nm \<mapsto> c)) (name l) = Some l"
        proof cases
          case 1
          then show ?thesis using c(2) by simp
        next
          case 2
          then have "name l \<in> set (names @ [''mem''])" using names by blast
          then have "name l \<noteq> nm" using h3 ne by auto
          moreover have "snd ph (name l) = Some l" using h1 2 by (simp add: inv_def)
          ultimately show ?thesis by simp
        qed
      qed
      show "dom (snd (c, (snd ph)(nm \<mapsto> c))) = set ((nm # names) @ [''mem''])"
        using h1 by (simp add: inv_def)
      show "snd (c, (snd ph)(nm \<mapsto> c)) ''mem'' = Some m"
        using h1 ne by (simp add: inv_def)
    qed
    then show ?thesis using False c(1) by (simp add: opt_def err_bind_def)
  qed
  have i0: "inv [] (m, [''mem'' \<mapsto> m])"
    using m_name m_next by (cases m) (simp add: inv_def)
  let ?n4 = "(if configs ''cache_4'' \<noteq> None then [''cache_4''] else []) @ []"
  let ?n3 = "(if configs ''cache_3'' \<noteq> None then [''cache_3''] else []) @ ?n4"
  let ?n2 = "(if configs ''cache_2'' \<noteq> None then [''cache_2''] else []) @ ?n3"
  obtain ph4 where ph4: "opt ''cache_4'' (m, [''mem'' \<mapsto> m]) = Inr ph4" "inv ?n4 ph4"
    using step [OF i0, of "''cache_4''"] by auto
  obtain ph3 where ph3: "opt ''cache_3'' ph4 = Inr ph3" "inv ?n3 ph3"
    using step [OF ph4(2), of "''cache_3''"] by auto
  obtain ph2 where ph2: "opt ''cache_2'' ph3 = Inr ph2" "inv ?n2 ph2"
    using step [OF ph3(2), of "''cache_2''"] by auto
  obtain k where k: "build_cache configs ''cache_1'' (Some (fst ph2)) = Inr k"
      "name k = ''cache_1''" "next_level k = Some (fst ph2)"
    using lvl [OF c1, of "fst ph2"] by auto
  have ch: "chain k = k # chain (fst ph2)" using k(3) by (cases k) simp
  have res: "build_hierarchy configs = Inr ((snd ph2)(''cache_1'' \<mapsto> k))"
    by (simp add: bh m ph4 ph3 ph2 k err_bind_def)
  have nm: "map name (chain k) = ''cache_1'' # ?n2 @ [''mem'']"
    using ph2(2) k(2) by (simp add: inv_def ch)
  have names2: "name ` set (chain (fst ph2)) = set (?n2 @ [''mem''])"
    using ph2(2) by (rule inv_names)
  have all: "\<forall>level \<in> set (chain k). ((snd ph2)(''cache_1'' \<mapsto> k)) (name level) = Some level"
  proof
    fix l assume "l \<in> set (chain k)"
    then consider "l = k" | "l \<in> set (chain (fst ph2))" by (auto simp: ch)
    then show "((snd ph2)(''cache_1'' \<mapsto> k)) (name l) = Some l"
    proof cases
      case 1
      then show ?thesis using k(2) by simp
    next
      case 2
      then have "name l \<in> set (?n2 @ [''mem''])" using names2 by blast
      then have "name l \<noteq> ''cache_1''" by (auto split: if_splits)
      moreover have "snd ph2 (name l) = Some l" using ph2(2) 2 by (simp add: inv_def)
      ultimately show ?thesis by simp
    qed
  qed
  have dm: "dom ((snd ph2)(''cache_1'' \<mapsto> k)) = set (map name (chain k))"
    using ph2(2) unfolding nm by (simp add: inv_def)
  have mm: "((snd ph2)(''cache_1'' \<mapsto> k)) ''mem'' = Some m"
    using ph2(2) by (simp add: inv_def)
  have fl: "''cache_1'' # ?n2 @ [''mem'']
      = ''cache_1''
        # [n \<leftarrow> [''cache_2'', ''cache_3'', ''cache_4'']. configs n \<noteq> None] @ [''mem'']"
    by simp
  show ?thesis
    using res mm m_next nm all dm unfolding fl
    by (intro exI [of _ "(snd ph2)(''cache_1'' \<mapsto> k)"] exI [of _ k] exI [of _ m]) simp
qed

theorem build_hierarchy_chain_witness:
  "configuration example_config
   \<and> (\<exists>hierarchy cache_1 main_memory.
         build_hierarchy example_config = Inr hierarchy
         \<and> hierarchy ''cache_1'' = Some cache_1
         \<and> hierarchy ''mem'' = Some main_memory
         \<and> next_level main_memory = None
         \<and> map name (chain cache_1) = [''cache_1'', ''cache_3'', ''mem''])"
proof -
  have c: "configuration example_config"
    by (simp add: configuration_def level_entry_def example_config_def)
  have f: "[n \<leftarrow> [''cache_2'', ''cache_3'', ''cache_4'']. example_config n \<noteq> None]
      = [''cache_3'']"
    by (simp add: example_config_def)
  show ?thesis
    using c build_hierarchy_chain [OF c] unfolding f by auto
qed

section \<open>The address decoder\<close>

text \<open>
  Claim C7. For every address and every positive block size and number of sets, the
  three parts of the decomposition give the address back:
  \<open>tag * numSets * blockSize + setIndex * blockSize + blockOffset = address\<close>.
\<close>

theorem address_round_trip:
  assumes "0 < blockSize" and "0 < numSets"
  shows "tag a blockSize numSets * numSets * blockSize
           + setIndex a blockSize numSets * blockSize
           + blockOffset a blockSize = a"
proof -
  let ?q = "a div blockSize"
  have "tag a blockSize numSets * numSets * blockSize
           + setIndex a blockSize numSets * blockSize
          = (?q div numSets * numSets + ?q mod numSets) * blockSize"
    unfolding tag_def setIndex_def by (rule distrib_right [symmetric])
  also have "\<dots> = ?q * blockSize" by simp
  finally show ?thesis by (simp add: blockOffset_def)
qed

theorem address_round_trip_witness:
  "(0::int) < 4 \<and> (0::int) < 2
   \<and> tag 13 4 2 * 2 * 4 + setIndex 13 4 2 * 4 + blockOffset 13 4 = 13
   \<and> tag 13 4 2 = 1 \<and> setIndex 13 4 2 = 1 \<and> blockOffset 13 4 = 1"
  using address_round_trip [of 4 2 13]
  by (simp add: tag_def setIndex_def blockOffset_def)

end
